theory Spec2Isabelle
  imports Complex_Main
begin

section \<open>The self-attention demo: data model and operations\<close>

text \<open>
  The program is the single script \<^verbatim>\<open>streamlit_app.py\<close>. Its logic consists of
  the static table \<^verbatim>\<open>EXAMPLES\<close>, the matrix construction at the head of
  \<^verbatim>\<open>create_simple_heatmap\<close>, and the word selection and sentence rendering in
  \<^verbatim>\<open>main\<close>. Words are Python strings, modelled as \<^typ>\<open>string\<close> with one
  \<^typ>\<open>char\<close> per code point, so the model covers words whose code points lie
  below 256; the catalog holds ASCII words only. The matrix holds the three constants
  \<^verbatim>\<open>0.1\<close>, \<^verbatim>\<open>0.8\<close> and \<^verbatim>\<open>1.0\<close>, which are stored and never
  computed with, so a cell is modelled by the number its literal denotes.
\<close>

subsection \<open>Python primitives used by the script\<close>

text \<open>\<^verbatim>\<open>list.index\<close> raises \<^verbatim>\<open>ValueError\<close> when the element is absent.\<close>

datatype py_error = ValueError

text \<open>
  \<^verbatim>\<open>str.lower\<close> on code points below 256: the letters A to Z (65 to 90) and the
  capital letters of the Latin-1 block (192 to 214 and 216 to 222) move up by 32;
  every other code point of that range, the multiplication sign 215 among them, is
  left as it is.
\<close>

definition lower_char :: "char \<Rightarrow> char" where
  "lower_char c =
     (let n = (of_char c :: nat)
      in if 65 \<le> n \<and> n \<le> 90 then char_of (n + 32)
         else if 192 \<le> n \<and> n \<le> 214 then char_of (n + 32)
         else if 216 \<le> n \<and> n \<le> 222 then char_of (n + 32)
         else c)"

definition lower :: "string \<Rightarrow> string" where
  "lower s = map lower_char s"

text \<open>\<^verbatim>\<open>words.index(x)\<close>: the position of the first occurrence, or the error.\<close>

fun list_index :: "'a list \<Rightarrow> 'a \<Rightarrow> py_error + nat" where
  "list_index [] x = Inl ValueError"
| "list_index (y # ys) x =
     (if y = x then Inr 0
      else (case list_index ys x of Inl e \<Rightarrow> Inl e | Inr i \<Rightarrow> Inr (Suc i)))"

text \<open>\<^verbatim>\<open>np.full((n, n), v)\<close> and \<^verbatim>\<open>np.fill_diagonal(matrix, v)\<close>.\<close>

type_synonym matrix = "real list list"

definition full :: "nat \<Rightarrow> real \<Rightarrow> matrix" where
  "full n v = replicate n (replicate n v)"

definition fill_diagonal :: "matrix \<Rightarrow> real \<Rightarrow> matrix" where
  "fill_diagonal m v = map (\<lambda>i. (m ! i)[i := v]) [0..<length m]"

text \<open>The assignment \<^verbatim>\<open>matrix[i][j] = v\<close>, used with indices inside the matrix.\<close>

definition set_cell :: "matrix \<Rightarrow> nat \<Rightarrow> nat \<Rightarrow> real \<Rightarrow> matrix" where
  "set_cell m i j v = m[i := (m ! i)[j := v] ]"

subsection \<open>The example catalog\<close>

record example =
  words :: "string list"
  attention :: "string \<rightharpoonup> string list"

definition business :: example where
  "business = \<lparr>
     words = [''Our'', ''company'', ''reported'', ''strong'', ''quarterly'', ''profits'',
              ''and'', ''the'', ''stock'', ''price'', ''surged''],
     attention = [
       ''stock'' \<mapsto> [''company'', ''profits'', ''surged''],
       ''profits'' \<mapsto> [''company'', ''quarterly'', ''strong''],
       ''surged'' \<mapsto> [''profits'', ''stock'', ''strong''],
       ''company'' \<mapsto> [''Our'', ''profits'', ''stock''] ] \<rparr>"

definition technology :: example where
  "technology = \<lparr>
     words = [''The'', ''new'', ''AI'', ''model'', ''processes'', ''language'', ''better'',
              ''than'', ''previous'', ''versions''],
     attention = [
       ''model'' \<mapsto> [''AI'', ''new'', ''processes''],
       ''processes'' \<mapsto> [''model'', ''language'', ''AI''],
       ''language'' \<mapsto> [''processes'', ''model'', ''better''],
       ''AI'' \<mapsto> [''model'', ''new'', ''processes''] ] \<rparr>"

definition EXAMPLES :: "string \<rightharpoonup> example" where
  "EXAMPLES = [''Business'' \<mapsto> business, ''Technology'' \<mapsto> technology]"

subsection \<open>The attention matrix builder\<close>

text \<open>
  The loop of \<^verbatim>\<open>create_simple_heatmap\<close> over the attended list: a target that is
  a member of \<^verbatim>\<open>words\<close> has its cell in the selected row set to \<^verbatim>\<open>0.8\<close>, any
  other target is passed over. The matrix is the loop's state.
\<close>

fun fill_targets :: "string list \<Rightarrow> nat \<Rightarrow> string list \<Rightarrow> matrix \<Rightarrow> py_error + matrix" where
  "fill_targets ws selected_idx [] m = Inr m"
| "fill_targets ws selected_idx (target_word # rest) m =
     (if target_word \<in> set ws then
        (case list_index ws target_word of
           Inl e \<Rightarrow> Inl e
         | Inr target_idx \<Rightarrow> fill_targets ws selected_idx rest (set_cell m selected_idx target_idx 0.8))
      else fill_targets ws selected_idx rest m)"

text \<open>
  The matrix that \<^verbatim>\<open>create_simple_heatmap\<close> builds and hands to the plotting
  library, or the exception that leaves the function.
\<close>

definition heatmap_matrix ::
  "string list \<Rightarrow> string \<Rightarrow> (string \<rightharpoonup> string list) \<Rightarrow> py_error + matrix" where
  "heatmap_matrix ws selected_word attention_dict =
     (let n = length ws;
          m = fill_diagonal (full n 0.1) 1.0
      in case attention_dict (lower selected_word) of
           None \<Rightarrow> Inr m
         | Some targets \<Rightarrow>
             (case list_index ws selected_word of
                Inl e \<Rightarrow> Inl e
              | Inr selected_idx \<Rightarrow> fill_targets ws selected_idx targets m))"

subsection \<open>Word selection and the sentence renderer\<close>

text \<open>The words offered in the sidebar, and the attended list of the chosen word.\<close>

definition available_words :: "string list \<Rightarrow> (string \<rightharpoonup> string list) \<Rightarrow> string list" where
  "available_words ws attention_dict = filter (\<lambda>w. attention_dict (lower w) \<noteq> None) ws"

definition attending_words :: "(string \<rightharpoonup> string list) \<Rightarrow> string \<Rightarrow> string list" where
  "attending_words attention_dict selected_word =
     (case attention_dict (lower selected_word) of None \<Rightarrow> [] | Some ts \<Rightarrow> ts)"

text \<open>The three style classes, as the script spells them.\<close>

definition selected_class :: string where
  "selected_class = ''word-box selected-word''"

definition attending_class :: string where
  "attending_class = ''word-box attending-word''"

definition neutral_class :: string where
  "neutral_class = ''word-box''"

definition css_class :: "string \<Rightarrow> string \<Rightarrow> string list \<Rightarrow> string" where
  "css_class word selected_word attending =
     (if word = selected_word then selected_class
      else if word \<in> set attending then attending_class
      else neutral_class)"

text \<open>The (word, class) pairs of the rendering loop, in the order of the loop.\<close>

definition render_tokens :: "string list \<Rightarrow> string \<Rightarrow> string list \<Rightarrow> (string \<times> string) list" where
  "render_tokens ws selected_word attending =
     map (\<lambda>word. (word, css_class word selected_word attending)) ws"

text \<open>The markup the loop accumulates in \<^verbatim>\<open>sentence_html\<close>.\<close>

definition span :: "string \<Rightarrow> string \<Rightarrow> string" where
  "span cls word = ''<span class='' @ [CHR 0x22] @ cls @ [CHR 0x22] @ ''>'' @ word @ ''</span> ''"

definition sentence_html :: "string list \<Rightarrow> string \<Rightarrow> string list \<Rightarrow> string" where
  "sentence_html ws selected_word attending =
     foldl (\<lambda>html word. html @ span (css_class word selected_word attending) word) [] ws"

subsection \<open>Vocabulary of the properties\<close>

text \<open>
  The matrix after the first two statements of the builder; the shape of an
  \<open>n\<close> by \<open>n\<close> matrix; and the cells the loop writes: cell \<open>(i, j)\<close> is an
  attended cell when \<open>i\<close> is the selected row and \<open>j\<close> is the first position of
  some target of the list.
\<close>

definition base_matrix :: "nat \<Rightarrow> matrix" where
  "base_matrix n = fill_diagonal (full n 0.1) 1.0"

definition square :: "nat \<Rightarrow> matrix \<Rightarrow> bool" where
  "square n m = (length m = n \<and> list_all (\<lambda>row. length row = n) m)"

definition attended_cell :: "string list \<Rightarrow> nat \<Rightarrow> string list \<Rightarrow> nat \<Rightarrow> nat \<Rightarrow> bool" where
  "attended_cell ws selected_idx targets i j =
     (i = selected_idx \<and> list_ex (\<lambda>t. list_index ws t = Inr j) targets)"

section \<open>Auxiliary facts\<close>

subsection \<open>First-occurrence index\<close>

lemma list_index_notin: "x \<notin> set ws \<Longrightarrow> list_index ws x = Inl ValueError"
  by (induction ws) auto

lemma list_index_in: "x \<in> set ws \<Longrightarrow> \<exists>i. list_index ws x = Inr i"
  by (induction ws) auto

lemma list_index_Inr:
  "list_index ws x = Inr i \<Longrightarrow> i < length ws \<and> ws ! i = x \<and> (\<forall>k<i. ws ! k \<noteq> x)"
proof (induction ws arbitrary: i)
  case Nil
  then show ?case by simp
next
  case (Cons y ys)
  show ?case
  proof (cases "y = x")
    case True
    with Cons.prems show ?thesis by simp
  next
    case False
    with Cons.prems obtain k where k: "list_index ys x = Inr k" "i = Suc k"
      by (auto split: sum.splits)
    from Cons.IH [OF k(1)] False k(2) show ?thesis
      by (auto simp: nth_Cons split: nat.splits)
  qed
qed

lemma list_index_mem: "list_index ws x = Inr i \<Longrightarrow> x \<in> set ws"
  using list_index_Inr [of ws x i] by (metis nth_mem)

lemma list_index_inj:
  "list_index ws x = Inr i \<Longrightarrow> list_index ws y = Inr i \<Longrightarrow> x = y"
  using list_index_Inr [of ws x i] list_index_Inr [of ws y i] by simp

subsection \<open>Matrix shape and cells\<close>

lemma square_full: "square n (full n v)"
  by (simp add: square_def full_def list_all_iff)

lemma square_nth: "square n m \<Longrightarrow> i < n \<Longrightarrow> length (m ! i) = n"
  by (simp add: square_def list_all_length)

lemma square_fill_diagonal: "square n m \<Longrightarrow> square n (fill_diagonal m v)"
  by (auto simp: square_def fill_diagonal_def list_all_length)

lemma fill_diagonal_cell:
  "square n m \<Longrightarrow> i < n \<Longrightarrow> j < n \<Longrightarrow>
   fill_diagonal m v ! i ! j = (if i = j then v else m ! i ! j)"
  by (auto simp: square_def fill_diagonal_def list_all_length)

lemma full_cell: "i < n \<Longrightarrow> j < n \<Longrightarrow> full n v ! i ! j = v"
  by (simp add: full_def)

lemma square_set_cell: "square n m \<Longrightarrow> square n (set_cell m i j v)"
proof (cases "i < length m")
  case True
  assume "square n m"
  with True show ?thesis
    by (simp add: square_def set_cell_def list_all_length nth_list_update)
next
  case False
  assume "square n m"
  with False show ?thesis
    by (simp add: set_cell_def list_update_beyond)
qed

lemma set_cell_cell:
  "square n m \<Longrightarrow> i0 < n \<Longrightarrow> j0 < n \<Longrightarrow> i < n \<Longrightarrow> j < n \<Longrightarrow>
   set_cell m i0 j0 v ! i ! j = (if i = i0 \<and> j = j0 then v else m ! i ! j)"
  by (simp add: square_def set_cell_def list_all_length nth_list_update)

lemma square_base: "square n (base_matrix n)"
  unfolding base_matrix_def by (intro square_fill_diagonal square_full)

lemma base_cell: "i < n \<Longrightarrow> j < n \<Longrightarrow> base_matrix n ! i ! j = (if i = j then 1 else 0.1)"
  unfolding base_matrix_def
  by (simp add: fill_diagonal_cell [OF square_full] full_cell)

subsection \<open>The loop over the targets\<close>

lemma fill_targets_filter:
  "fill_targets ws si (filter (\<lambda>t. t \<in> set ws) ts) m = fill_targets ws si ts m"
proof (induction ts arbitrary: m)
  case Nil
  show ?case by simp
next
  case (Cons t ts)
  show ?case
  proof (cases "t \<in> set ws")
    case True
    then obtain j where "list_index ws t = Inr j"
      using list_index_in [of t ws] by auto
    with True Cons.IH [of "set_cell m si j 0.8"] show ?thesis by simp
  next
    case False
    with Cons.IH [of m] show ?thesis by simp
  qed
qed

lemma fill_targets_total: "\<exists>m'. fill_targets ws si ts m = Inr m'"
proof (induction ts arbitrary: m)
  case Nil
  show ?case by simp
next
  case (Cons t ts)
  show ?case
  proof (cases "t \<in> set ws")
    case True
    then obtain j where "list_index ws t = Inr j"
      using list_index_in [of t ws] by auto
    with True Cons.IH show ?thesis by simp
  next
    case False
    with Cons.IH show ?thesis by simp
  qed
qed

lemma fill_targets_cells:
  assumes "fill_targets ws si ts m = Inr m'" and "square (length ws) m" and "si < length ws"
  shows "square (length ws) m' \<and>
         (\<forall>i<length ws. \<forall>j<length ws.
            m' ! i ! j = (if attended_cell ws si ts i j then 0.8 else m ! i ! j))"
  using assms
proof (induction ts arbitrary: m)
  case Nil
  then show ?case by (simp add: attended_cell_def)
next
  case (Cons t ts)
  show ?case
  proof (cases "t \<in> set ws")
    case False
    with Cons.prems have run: "fill_targets ws si ts m = Inr m'" by simp
    from False have "list_index ws t \<noteq> Inr j" for j
      by (auto dest: list_index_mem)
    then have "attended_cell ws si (t # ts) i j = attended_cell ws si ts i j" for i j
      by (simp add: attended_cell_def)
    with Cons.IH [OF run Cons.prems(2,3)] show ?thesis by simp
  next
    case True
    then obtain tj where tj: "list_index ws t = Inr tj"
      using list_index_in [of t ws] by auto
    then have tj_lt: "tj < length ws"
      using list_index_Inr [of ws t tj] by simp
    let ?m1 = "set_cell m si tj 0.8"
    from True tj Cons.prems have run: "fill_targets ws si ts ?m1 = Inr m'" by simp
    have sq1: "square (length ws) ?m1"
      using Cons.prems(2) by (rule square_set_cell)
    have ih: "square (length ws) m' \<and>
         (\<forall>i<length ws. \<forall>j<length ws.
            m' ! i ! j = (if attended_cell ws si ts i j then 0.8 else ?m1 ! i ! j))"
      by (rule Cons.IH [OF run sq1 Cons.prems(3)])
    have cell: "m' ! i ! j = (if attended_cell ws si (t # ts) i j then 0.8 else m ! i ! j)"
      if "i < length ws" "j < length ws" for i j
    proof -
      have a: "attended_cell ws si (t # ts) i j =
                 ((i = si \<and> j = tj) \<or> attended_cell ws si ts i j)"
        using tj by (auto simp: attended_cell_def)
      have b: "?m1 ! i ! j = (if i = si \<and> j = tj then 0.8 else m ! i ! j)"
        using set_cell_cell [OF Cons.prems(2) Cons.prems(3) tj_lt that] .
      from ih that have c: "m' ! i ! j = (if attended_cell ws si ts i j then 0.8 else ?m1 ! i ! j)"
        by blast
      show ?thesis
        unfolding a c b
        by (cases "i = si \<and> j = tj"; cases "attended_cell ws si ts i j";
            simp only: if_True if_False simp_thms)
    qed
    from ih cell show ?thesis by blast
  qed
qed

lemma attended_cell_col:
  assumes "list_index ws x = Inr j" and "attended_cell ws si ts i j"
  shows "x \<in> set ts"
proof -
  from assms(2) obtain t where t: "t \<in> set ts" "list_index ws t = Inr j"
    by (auto simp: attended_cell_def list_ex_iff)
  from list_index_inj [OF t(2) assms(1)] t(1) show ?thesis by simp
qed

lemma attended_cell_diag:
  assumes "list_index ws sel = Inr si" and "attended_cell ws si ts i i"
  shows "sel \<in> set ts"
proof -
  from assms(2) obtain t where t: "t \<in> set ts" "list_index ws t = Inr si"
    by (auto simp: attended_cell_def list_ex_iff)
  from list_index_inj [OF t(2) assms(1)] t(1) show ?thesis by simp
qed

lemma attended_cell_target:
  "t \<in> set ts \<Longrightarrow> list_index ws t = Inr ti \<Longrightarrow> attended_cell ws si ts si ti"
  by (auto simp: attended_cell_def list_ex_iff)

subsection \<open>The builder as a whole\<close>

lemma heatmap_matrix_no_key:
  "att (lower sel) = None \<Longrightarrow> heatmap_matrix ws sel att = Inr (base_matrix (length ws))"
  by (simp add: heatmap_matrix_def base_matrix_def)

lemma heatmap_matrix_key:
  "att (lower sel) = Some ts \<Longrightarrow>
   heatmap_matrix ws sel att =
     (case list_index ws sel of
        Inl e \<Rightarrow> Inl e
      | Inr si \<Rightarrow> fill_targets ws si ts (base_matrix (length ws)))"
  by (simp add: heatmap_matrix_def base_matrix_def split: sum.splits)

lemma heatmap_matrix_cells:
  assumes "att (lower sel) = Some ts" and "list_index ws sel = Inr si"
  shows "\<exists>m. heatmap_matrix ws sel att = Inr m \<and> square (length ws) m \<and>
           (\<forall>i<length ws. \<forall>j<length ws.
              m ! i ! j = (if attended_cell ws si ts i j then 0.8
                           else if i = j then 1 else 0.1))"
proof -
  obtain m where m: "fill_targets ws si ts (base_matrix (length ws)) = Inr m"
    using fill_targets_total by blast
  have si: "si < length ws"
    using assms(2) list_index_Inr [of ws sel si] by simp
  from fill_targets_cells [OF m square_base si]
  have "square (length ws) m \<and>
        (\<forall>i<length ws. \<forall>j<length ws.
           m ! i ! j = (if attended_cell ws si ts i j then 0.8
                        else if i = j then 1 else 0.1))"
    by (simp add: base_cell)
  moreover have "heatmap_matrix ws sel att = Inr m"
    using assms m by (simp add: heatmap_matrix_key)
  ultimately show ?thesis by blast
qed

lemma heatmap_matrix_total:
  assumes "sel \<in> set ws"
  shows "\<exists>m. heatmap_matrix ws sel att = Inr m \<and> square (length ws) m"
proof (cases "att (lower sel)")
  case None
  then show ?thesis
    by (simp add: heatmap_matrix_no_key square_base)
next
  case (Some ts)
  from assms obtain si where si: "list_index ws sel = Inr si"
    using list_index_in [of sel ws] by auto
  from heatmap_matrix_cells [of att sel ts ws si, OF Some si] show ?thesis
    by blast
qed

lemma heatmap_matrix_targets_cong:
  assumes "filter (\<lambda>t. t \<in> set ws) ts = filter (\<lambda>t. t \<in> set ws) ts'"
    and "att (lower sel) = Some ts"
  shows "heatmap_matrix ws sel att = heatmap_matrix ws sel (att(lower sel \<mapsto> ts'))"
proof -
  have "fill_targets ws si ts m = fill_targets ws si ts' m" for si m
    using fill_targets_filter [of ws si ts m] fill_targets_filter [of ws si ts' m] assms(1)
    by simp
  then show ?thesis
    using assms(2) by (simp add: heatmap_matrix_key split: sum.splits)
qed

subsection \<open>The markup is the rendering of the token pairs\<close>

lemma foldl_span_concat:
  "foldl (\<lambda>html word. html @ span (css_class word sel atts) word) acc ws =
     acc @ concat (map (\<lambda>(word, cls). span cls word) (render_tokens ws sel atts))"
  by (induction ws arbitrary: acc) (simp_all add: render_tokens_def)

lemma sentence_html_tokens:
  "sentence_html ws sel atts =
     concat (map (\<lambda>(word, cls). span cls word) (render_tokens ws sel atts))"
  by (simp add: sentence_html_def foldl_span_concat)

subsection \<open>The renderer and the catalog\<close>

lemma class_distinct:
  "selected_class \<noteq> attending_class" "selected_class \<noteq> neutral_class"
  "attending_class \<noteq> neutral_class"
  by (simp_all add: selected_class_def attending_class_def neutral_class_def)

lemma count_selected:
  "length (filter (\<lambda>p. snd p = selected_class) (render_tokens ws w atts)) = count_list ws w"
  by (induction ws) (simp_all add: render_tokens_def css_class_def class_distinct [symmetric])

lemma EXAMPLES_cases: "EXAMPLES name = Some E \<Longrightarrow> E = business \<or> E = technology"
  by (auto simp: EXAMPLES_def split: if_splits)

lemma business_no_self:
  "list_all (\<lambda>w. case attention business (lower w) of None \<Rightarrow> True | Some ts \<Rightarrow> w \<notin> set ts)
     (words business)"
  by code_simp

lemma technology_no_self:
  "list_all (\<lambda>w. case attention technology (lower w) of None \<Rightarrow> True | Some ts \<Rightarrow> w \<notin> set ts)
     (words technology)"
  by code_simp

lemma catalog_no_self_target:
  assumes "EXAMPLES name = Some E" and "w \<in> set (words E)" and "attention E (lower w) = Some ts"
  shows "w \<notin> set ts"
proof -
  from assms(1) have "E = business \<or> E = technology"
    by (rule EXAMPLES_cases)
  then have "list_all (\<lambda>w. case attention E (lower w) of None \<Rightarrow> True | Some ts \<Rightarrow> w \<notin> set ts)
     (words E)"
    using business_no_self technology_no_self by auto
  with assms(2) have "case attention E (lower w) of None \<Rightarrow> True | Some ts \<Rightarrow> w \<notin> set ts"
    by (simp add: list_all_iff)
  with assms(3) show ?thesis by simp
qed

lemma business_length: "length (words business) = 11"
  by code_simp

lemma business_stock_matrix:
  "heatmap_matrix (words business) ''stock'' (attention business) = Inr
     [ [1, 0.1, 0.1, 0.1, 0.1, 0.1, 0.1, 0.1, 0.1, 0.1, 0.1],
      [0.1, 1, 0.1, 0.1, 0.1, 0.1, 0.1, 0.1, 0.1, 0.1, 0.1],
      [0.1, 0.1, 1, 0.1, 0.1, 0.1, 0.1, 0.1, 0.1, 0.1, 0.1],
      [0.1, 0.1, 0.1, 1, 0.1, 0.1, 0.1, 0.1, 0.1, 0.1, 0.1],
      [0.1, 0.1, 0.1, 0.1, 1, 0.1, 0.1, 0.1, 0.1, 0.1, 0.1],
      [0.1, 0.1, 0.1, 0.1, 0.1, 1, 0.1, 0.1, 0.1, 0.1, 0.1],
      [0.1, 0.1, 0.1, 0.1, 0.1, 0.1, 1, 0.1, 0.1, 0.1, 0.1],
      [0.1, 0.1, 0.1, 0.1, 0.1, 0.1, 0.1, 1, 0.1, 0.1, 0.1],
      [0.1, 0.8, 0.1, 0.1, 0.1, 0.8, 0.1, 0.1, 1, 0.1, 0.8],
      [0.1, 0.1, 0.1, 0.1, 0.1, 0.1, 0.1, 0.1, 0.1, 1, 0.1],
      [0.1, 0.1, 0.1, 0.1, 0.1, 0.1, 0.1, 0.1, 0.1, 0.1, 1] ]"
  by code_simp

lemma business_stock_indices:
  "list_index (words business) ''stock'' = Inr 8"
  "list_index (words business) ''company'' = Inr 1"
  "list_index (words business) ''profits'' = Inr 5"
  "list_index (words business) ''surged'' = Inr 10"
  by code_simp+

lemma business_stock_attention:
  "attention business (lower ''stock'') = Some [''company'', ''profits'', ''surged'']"
  by code_simp

section \<open>The claims\<close>

subsection \<open>C1: a selected word that is not in the sentence\<close>

text \<open>
  Claim C1, as amended. The script defines no validation error of its own. When
  \<^verbatim>\<open>selected_word\<close> is not a member of \<^verbatim>\<open>words\<close>, the builder raises
  Python's \<^verbatim>\<open>ValueError\<close> from \<^verbatim>\<open>words.index\<close> if the lowercase form of the
  word is a key of the attention mapping; otherwise it raises nothing and returns the
  matrix with \<^verbatim>\<open>1.0\<close> on the diagonal and \<^verbatim>\<open>0.1\<close> elsewhere.
\<close>

theorem C1_builder_missing_selected_word:
  assumes "selected_word \<notin> set ws"
  shows "heatmap_matrix ws selected_word attention_dict =
           (if attention_dict (lower selected_word) = None
            then Inr (base_matrix (length ws)) else Inl ValueError)"
proof (cases "attention_dict (lower selected_word)")
  case None
  then show ?thesis by (simp add: heatmap_matrix_no_key)
next
  case (Some ts)
  from assms have "list_index ws selected_word = Inl ValueError"
    by (rule list_index_notin)
  with Some show ?thesis by (simp add: heatmap_matrix_key)
qed

text \<open>The error branch at a concrete input: the key is present, the word is not.\<close>

theorem C1_builder_missing_selected_word_witness:
  "''b'' \<notin> set [''a''] \<and> heatmap_matrix [''a''] ''b'' [''b'' \<mapsto> [] ] = Inl ValueError"
proof -
  have h: "''b'' \<notin> set [''a'']" by simp
  have k: "[''b'' \<mapsto> ([]::string list)] (lower ''b'') \<noteq> None" by code_simp
  from C1_builder_missing_selected_word [OF h, of "[''b'' \<mapsto> [] ]"] h k show ?thesis by simp
qed

text \<open>
  The claim as first stated fails: with no key for the word, a word outside the
  sentence yields a matrix and no error at all.
\<close>

theorem C1_missing_word_no_error_counterexample:
  "''b'' \<notin> set [''a''] \<and> heatmap_matrix [''a''] ''b'' Map.empty = Inr [ [1] ]"
  by code_simp

subsection \<open>C2: the sentence renderer\<close>

text \<open>
  Claim C2, as amended. The renderer returns one (word, class) pair per word, in the
  order of \<^verbatim>\<open>words\<close>; a pair has class selected exactly when its word equals
  the selected word, so the number of selected pairs is the number of occurrences of
  that word in \<^verbatim>\<open>words\<close> (one when it occurs once, none when it is absent);
  every other word that is a member of the attended list has class attending, and all
  remaining words have class neutral. The three classes are pairwise different.
\<close>

theorem C2_renderer_classification:
  "length (render_tokens ws w atts) = length ws \<and>
   map fst (render_tokens ws w atts) = ws \<and>
   (\<forall>i<length ws. snd (render_tokens ws w atts ! i) =
      (if ws ! i = w then selected_class
       else if ws ! i \<in> set atts then attending_class
       else neutral_class)) \<and>
   length (filter (\<lambda>p. snd p = selected_class) (render_tokens ws w atts)) = count_list ws w \<and>
   selected_class \<noteq> attending_class \<and> selected_class \<noteq> neutral_class \<and>
   attending_class \<noteq> neutral_class"
proof -
  have "map fst (render_tokens ws w atts) = ws"
    by (simp add: render_tokens_def comp_def)
  moreover have "\<forall>i<length ws. snd (render_tokens ws w atts ! i) =
      (if ws ! i = w then selected_class
       else if ws ! i \<in> set atts then attending_class
       else neutral_class)"
    by (simp add: render_tokens_def css_class_def)
  moreover have "length (render_tokens ws w atts) = length ws"
    by (simp add: render_tokens_def)
  ultimately show ?thesis
    using count_selected [of ws w atts] class_distinct by simp
qed

text \<open>The Business sentence with \<^verbatim>\<open>profits\<close> selected, position 5.\<close>

theorem C2_renderer_classification_witness:
  "render_tokens (words business) ''profits'' (attending_words (attention business) ''profits'') =
     [(''Our'', neutral_class), (''company'', attending_class), (''reported'', neutral_class),
      (''strong'', attending_class), (''quarterly'', attending_class),
      (''profits'', selected_class), (''and'', neutral_class), (''the'', neutral_class),
      (''stock'', neutral_class), (''price'', neutral_class), (''surged'', neutral_class)] \<and>
   (5::nat) < length (words business) \<and>
   snd (render_tokens (words business) ''profits''
          (attending_words (attention business) ''profits'') ! 5) = selected_class \<and>
   length (filter (\<lambda>p. snd p = selected_class)
     (render_tokens (words business) ''profits''
        (attending_words (attention business) ''profits''))) = 1"
proof -
  have len: "(5::nat) < length (words business)" by code_simp
  have w5: "words business ! 5 = ''profits''" by code_simp
  have cnt: "count_list (words business) ''profits'' = 1" by code_simp
  have toks: "render_tokens (words business) ''profits''
       (attending_words (attention business) ''profits'') =
     [(''Our'', neutral_class), (''company'', attending_class), (''reported'', neutral_class),
      (''strong'', attending_class), (''quarterly'', attending_class),
      (''profits'', selected_class), (''and'', neutral_class), (''the'', neutral_class),
      (''stock'', neutral_class), (''price'', neutral_class), (''surged'', neutral_class)]"
    by code_simp
  from C2_renderer_classification [of "words business" "''profits''" "attending_words (attention business) ''profits''"]
  have "snd (render_tokens (words business) ''profits''
          (attending_words (attention business) ''profits'') ! 5) = selected_class"
    and "length (filter (\<lambda>p. snd p = selected_class)
     (render_tokens (words business) ''profits''
        (attending_words (attention business) ''profits''))) = 1"
    using len w5 cnt by simp_all
  with toks len show ?thesis by simp
qed

text \<open>
  The claim as first stated fails on a sentence that repeats the selected word: both
  occurrences are rendered as selected.
\<close>

theorem C2_duplicate_selected_counterexample:
  "''a'' \<in> set [''a'', ''a''] \<and>
   render_tokens [''a'', ''a''] ''a'' [] = [(''a'', selected_class), (''a'', selected_class)] \<and>
   length (filter (\<lambda>p. snd p = selected_class) (render_tokens [''a'', ''a''] ''a'' [])) = 2"
  by (simp add: render_tokens_def css_class_def)

subsection \<open>C3: diagonal and baseline over the catalog\<close>

text \<open>
  Claim C3. For every example \<open>E\<close> of the catalog and every word \<open>w\<close> of its
  sentence whose lowercase form is a key of its attention mapping, the builder returns
  a matrix with as many rows and columns as the sentence has words, every diagonal cell
  is \<^verbatim>\<open>1.0\<close>, and every off-diagonal cell that is not an attended cell of the
  selected row is \<^verbatim>\<open>0.1\<close>.
\<close>

theorem C3_catalog_diagonal_and_baseline:
  fixes E :: example
  assumes "EXAMPLES name = Some E" and "w \<in> set (words E)"
    and "attention E (lower w) = Some ts"
  shows "\<exists>m si. heatmap_matrix (words E) w (attention E) = Inr m \<and>
           list_index (words E) w = Inr si \<and>
           square (length (words E)) m \<and>
           (\<forall>i<length (words E). m ! i ! i = 1) \<and>
           (\<forall>i<length (words E). \<forall>j<length (words E).
              i \<noteq> j \<longrightarrow> \<not> attended_cell (words E) si ts i j \<longrightarrow> m ! i ! j = 0.1)"
proof -
  from assms(2) obtain si where si: "list_index (words E) w = Inr si"
    using list_index_in [of w "words E"] by auto
  from heatmap_matrix_cells [of "attention E" w ts "words E" si, OF assms(3) si]
  obtain m where m: "heatmap_matrix (words E) w (attention E) = Inr m"
      "square (length (words E)) m"
      "\<forall>i<length (words E). \<forall>j<length (words E).
         m ! i ! j = (if attended_cell (words E) si ts i j then 0.8
                      else if i = j then 1 else 0.1)"
    by blast
  have "w \<notin> set ts"
    using assms by (rule catalog_no_self_target)
  then have nodiag: "\<not> attended_cell (words E) si ts i i" for i
    using attended_cell_diag [OF si] by blast
  have diag: "\<forall>i<length (words E). m ! i ! i = 1"
    using m(3) nodiag by simp
  have off: "\<forall>i<length (words E). \<forall>j<length (words E).
              i \<noteq> j \<longrightarrow> \<not> attended_cell (words E) si ts i j \<longrightarrow> m ! i ! j = 0.1"
    using m(3) by simp
  from m(1) si m(2) diag off show ?thesis by blast
qed

text \<open>The Business example with \<^verbatim>\<open>stock\<close> selected: cells (0, 0) and (8, 0).\<close>

theorem C3_catalog_diagonal_and_baseline_witness:
  "EXAMPLES ''Business'' = Some business \<and> ''stock'' \<in> set (words business) \<and>
   attention business (lower ''stock'') = Some [''company'', ''profits'', ''surged''] \<and>
   list_index (words business) ''stock'' = Inr 8 \<and>
   \<not> attended_cell (words business) 8 [''company'', ''profits'', ''surged''] 8 0 \<and>
   projr (heatmap_matrix (words business) ''stock'' (attention business)) ! 0 ! 0 = 1 \<and>
   projr (heatmap_matrix (words business) ''stock'' (attention business)) ! 8 ! 0 = 0.1"
proof -
  have h1: "EXAMPLES ''Business'' = Some business"
    by (simp add: EXAMPLES_def)
  have h2: "''stock'' \<in> set (words business)"
    by code_simp
  have h3: "attention business (lower ''stock'') = Some [''company'', ''profits'', ''surged'']"
    by (rule business_stock_attention)
  have na: "\<not> attended_cell (words business) 8 [''company'', ''profits'', ''surged''] 8 0"
    by code_simp
  from C3_catalog_diagonal_and_baseline [OF h1 h2 h3] obtain m si where
    m: "heatmap_matrix (words business) ''stock'' (attention business) = Inr m"
    and si: "list_index (words business) ''stock'' = Inr si"
    and diag: "\<forall>i<length (words business). m ! i ! i = 1"
    and off: "\<forall>i<length (words business). \<forall>j<length (words business).
              i \<noteq> j \<longrightarrow>
              \<not> attended_cell (words business) si [''company'', ''profits'', ''surged''] i j \<longrightarrow>
              m ! i ! j = 0.1"
    by blast
  from si have si8: "si = 8"
    by (simp add: business_stock_indices)
  from diag have d0: "m ! 0 ! 0 = 1"
    by (simp add: business_length)
  from off na have o80: "m ! 8 ! 0 = 0.1"
    unfolding si8 business_length by simp
  from h1 h2 h3 na m d0 o80 business_stock_indices(1) show ?thesis by simp
qed

subsection \<open>C4: the attended cells\<close>

text \<open>
  Claim C4. For every example and every selectable word \<open>w\<close>, each target of
  \<open>w\<close> that occurs in the sentence has \<^verbatim>\<open>0.8\<close> at the cell whose row is the
  first position of \<open>w\<close> and whose column is the first position of the target. For
  the Business example with \<^verbatim>\<open>stock\<close> selected, row 8 holds \<^verbatim>\<open>1.0\<close> at
  column 8, \<^verbatim>\<open>0.8\<close> at columns 1, 5 and 10, and \<^verbatim>\<open>0.1\<close> everywhere else.
\<close>

theorem C4_attended_cells:
  "(\<forall>(E::example) w ts t si ti.
      attention E (lower w) = Some ts \<and> t \<in> set ts \<and>
      list_index (words E) w = Inr si \<and> list_index (words E) t = Inr ti \<longrightarrow>
      (\<exists>m. heatmap_matrix (words E) w (attention E) = Inr m \<and> m ! si ! ti = 0.8)) \<and>
   (\<exists>m. heatmap_matrix (words business) ''stock'' (attention business) = Inr m \<and>
        list_index (words business) ''stock'' = Inr 8 \<and>
        m ! 8 = [0.1, 0.8, 0.1, 0.1, 0.1, 0.8, 0.1, 0.1, 1, 0.1, 0.8])"
proof (intro conjI allI impI)
  fix E :: example and w ts t si ti
  assume h: "attention E (lower w) = Some ts \<and> t \<in> set ts \<and>
      list_index (words E) w = Inr si \<and> list_index (words E) t = Inr ti"
  then have att: "attention E (lower w) = Some ts" and t: "t \<in> set ts"
    and si: "list_index (words E) w = Inr si" and ti: "list_index (words E) t = Inr ti"
    by simp_all
  from heatmap_matrix_cells [of "attention E" w ts "words E" si, OF att si]
  obtain m where m: "heatmap_matrix (words E) w (attention E) = Inr m"
      "\<forall>i<length (words E). \<forall>j<length (words E).
         m ! i ! j = (if attended_cell (words E) si ts i j then 0.8
                      else if i = j then 1 else 0.1)"
    by blast
  have "si < length (words E)" "ti < length (words E)"
    using list_index_Inr [OF si] list_index_Inr [OF ti] by simp_all
  moreover have "attended_cell (words E) si ts si ti"
    using t ti by (rule attended_cell_target)
  ultimately have "m ! si ! ti = 0.8"
    using m(2) by simp
  with m(1) show "\<exists>m. heatmap_matrix (words E) w (attention E) = Inr m \<and> m ! si ! ti = 0.8"
    by blast
next
  show "\<exists>m. heatmap_matrix (words business) ''stock'' (attention business) = Inr m \<and>
        list_index (words business) ''stock'' = Inr 8 \<and>
        m ! 8 = [0.1, 0.8, 0.1, 0.1, 0.1, 0.8, 0.1, 0.1, 1, 0.1, 0.8]"
    by (simp add: business_stock_matrix business_stock_indices)
qed

text \<open>The general part at the Business example, \<^verbatim>\<open>stock\<close> and \<^verbatim>\<open>company\<close>.\<close>

theorem C4_attended_cells_witness:
  "attention business (lower ''stock'') = Some [''company'', ''profits'', ''surged''] \<and>
   ''company'' \<in> set [''company'', ''profits'', ''surged''] \<and>
   list_index (words business) ''stock'' = Inr 8 \<and>
   list_index (words business) ''company'' = Inr 1 \<and>
   projr (heatmap_matrix (words business) ''stock'' (attention business)) ! 8 ! 1 = 0.8"
proof -
  have h: "attention business (lower ''stock'') = Some [''company'', ''profits'', ''surged''] \<and>
      ''company'' \<in> set [''company'', ''profits'', ''surged''] \<and>
      list_index (words business) ''stock'' = Inr 8 \<and>
      list_index (words business) ''company'' = Inr 1"
    by (simp add: business_stock_attention business_stock_indices)
  from C4_attended_cells have "attention business (lower ''stock'') = Some [''company'', ''profits'', ''surged''] \<and>
      ''company'' \<in> set [''company'', ''profits'', ''surged''] \<and>
      list_index (words business) ''stock'' = Inr 8 \<and>
      list_index (words business) ''company'' = Inr 1 \<longrightarrow>
      (\<exists>m. heatmap_matrix (words business) ''stock'' (attention business) = Inr m \<and>
           m ! 8 ! 1 = 0.8)"
    by blast
  with h obtain m where
    "heatmap_matrix (words business) ''stock'' (attention business) = Inr m" "m ! 8 ! 1 = 0.8"
    by blast
  with h show ?thesis by simp
qed

subsection \<open>C5: targets that are not in the sentence\<close>

text \<open>
  Claim C5. A target of the attended list that is not a member of \<^verbatim>\<open>words\<close> is
  passed over: the result of the builder, matrix or error, is the one obtained from
  the list without that target, and when the selected word is in the sentence the
  result is a matrix of the full shape, so the unknown target raises nothing.
\<close>

theorem C5_unknown_target_skipped:
  assumes "t \<notin> set ws" and "att (lower sel) = Some (ts1 @ t # ts2)"
  shows "heatmap_matrix ws sel att = heatmap_matrix ws sel (att(lower sel \<mapsto> ts1 @ ts2)) \<and>
         (sel \<in> set ws \<longrightarrow>
            (\<exists>m. heatmap_matrix ws sel att = Inr m \<and> square (length ws) m))"
proof -
  have "filter (\<lambda>t. t \<in> set ws) (ts1 @ t # ts2) = filter (\<lambda>t. t \<in> set ws) (ts1 @ ts2)"
    using assms(1) by simp
  then have "heatmap_matrix ws sel att = heatmap_matrix ws sel (att(lower sel \<mapsto> ts1 @ ts2))"
    using assms(2) by (rule heatmap_matrix_targets_cong)
  then show ?thesis
    using heatmap_matrix_total [of sel ws att] by blast
qed

text \<open>A sentence of two words and an attended list with one unknown target.\<close>

theorem C5_unknown_target_skipped_witness:
  "''bird'' \<notin> set [''the'', ''cat''] \<and>
   [''cat'' \<mapsto> [''the'', ''bird''] ] (lower ''cat'') = Some ([''the''] @ ''bird'' # []) \<and>
   ''cat'' \<in> set [''the'', ''cat''] \<and>
   heatmap_matrix [''the'', ''cat''] ''cat'' [''cat'' \<mapsto> [''the'', ''bird''] ] =
     Inr [ [1, 0.1], [0.8, 1] ] \<and>
   heatmap_matrix [''the'', ''cat''] ''cat''
     ([''cat'' \<mapsto> [''the'', ''bird''] ](lower ''cat'' \<mapsto> [''the''] @ [])) =
     Inr [ [1, 0.1], [0.8, 1] ]"
proof -
  have h1: "''bird'' \<notin> set [''the'', ''cat'']" by simp
  have h2: "[''cat'' \<mapsto> [''the'', ''bird''] ] (lower ''cat'') = Some ([''the''] @ ''bird'' # [])"
    by code_simp
  have h3: "''cat'' \<in> set [''the'', ''cat'']" by simp
  have v: "heatmap_matrix [''the'', ''cat''] ''cat'' [''cat'' \<mapsto> [''the'', ''bird''] ] =
     Inr [ [1, 0.1], [0.8, 1] ]"
    by code_simp
  from C5_unknown_target_skipped [where t = "''bird''" and ws = "[''the'', ''cat'']" and sel = "''cat''"
      and att = "[''cat'' \<mapsto> [''the'', ''bird''] ]" and ?ts1.0 = "[''the'']" and ?ts2.0 = "[]",
      OF h1 h2] v h1 h2 h3 show ?thesis by simp
qed

subsection \<open>C6: the selectable words\<close>

text \<open>
  Claim C6. The words offered for selection are exactly the words of the sentence
  whose lowercase form is a key of the attention mapping, in sentence order; in the
  Business example \<^verbatim>\<open>Our\<close> is not offered. The two lists of the catalog are
  given in full.
\<close>

theorem C6_available_words:
  "set (available_words (words E) (attention E)) =
     {w \<in> set (words E). lower w \<in> dom (attention E)} \<and>
   available_words (words E) (attention E) =
     filter (\<lambda>w. lower w \<in> dom (attention E)) (words E) \<and>
   ''Our'' \<notin> set (available_words (words business) (attention business)) \<and>
   available_words (words business) (attention business) =
     [''company'', ''profits'', ''stock'', ''surged''] \<and>
   available_words (words technology) (attention technology) =
     [''model'', ''processes'', ''language'']"
proof -
  have b: "available_words (words business) (attention business) =
     [''company'', ''profits'', ''stock'', ''surged'']"
    by code_simp
  have t: "available_words (words technology) (attention technology) =
     [''model'', ''processes'', ''language'']"
    by code_simp
  have f: "available_words (words E) (attention E) =
     filter (\<lambda>w. lower w \<in> dom (attention E)) (words E)"
    by (simp add: available_words_def dom_def)
  have s: "set (available_words (words E) (attention E)) =
     {w \<in> set (words E). lower w \<in> dom (attention E)}"
    unfolding f by simp
  from s f show ?thesis unfolding b t by simp
qed

subsection \<open>C7: a sentence of one word\<close>

text \<open>
  Claim C7, as amended. For a sentence of one word with that word selected, and an
  attended list of the word that does not contain the word itself, the builder returns
  the one by one matrix holding \<^verbatim>\<open>1.0\<close>, and the renderer, whatever attended
  list it is given, produces no token of class attending.
\<close>

theorem C7_single_word:
  assumes "length ws = 1" and "w \<in> set ws" and "w \<notin> set (attending_words att w)"
  shows "heatmap_matrix ws w att = Inr [ [1] ] \<and>
         list_all (\<lambda>p. snd p \<noteq> attending_class) (render_tokens ws w atts)"
proof -
  from assms(1,2) have ws: "ws = [w]"
    by (cases ws) auto
  have idx: "list_index ws w = Inr 0"
    by (simp add: ws)
  have m1: "m = [ [x] ]" if "square 1 m" "m ! 0 ! 0 = x" for m :: matrix and x
  proof -
    from that(1) obtain r where r: "m = [r]" "length r = 1"
      by (cases m) (auto simp: square_def)
    then obtain y where "r = [y]"
      by (cases r) auto
    with r that(2) show ?thesis by simp
  qed
  have mat: "heatmap_matrix ws w att = Inr [ [1] ]"
  proof (cases "att (lower w)")
    case None
    have "base_matrix 1 = [ [1] ]"
      using m1 [OF square_base [of 1] ] base_cell [of 0 1 0] by simp
    with None show ?thesis
      by (simp add: heatmap_matrix_no_key ws)
  next
    case (Some ts)
    from heatmap_matrix_cells [of att w ts ws 0, OF Some idx]
    obtain m where m: "heatmap_matrix ws w att = Inr m" "square 1 m"
      "m ! 0 ! 0 = (if attended_cell ws 0 ts 0 0 then 0.8 else 1)"
      by (auto simp: ws)
    from Some assms(3) have "w \<notin> set ts"
      by (simp add: attending_words_def)
    then have "\<not> attended_cell ws 0 ts 0 0"
      using attended_cell_diag [OF idx] by blast
    with m(3) have "m ! 0 ! 0 = 1" by simp
    with m1 [OF m(2)] have "m = [ [1] ]" by simp
    with m(1) show ?thesis by simp
  qed
  have "list_all (\<lambda>p. snd p \<noteq> attending_class) (render_tokens ws w atts)"
    using class_distinct by (simp add: ws render_tokens_def css_class_def)
  with mat show ?thesis by simp
qed

text \<open>The sentence \<^verbatim>\<open>["stock"]\<close> with the Business attention mapping.\<close>

theorem C7_single_word_witness:
  "length [''stock''] = 1 \<and> ''stock'' \<in> set [''stock''] \<and>
   ''stock'' \<notin> set (attending_words (attention business) ''stock'') \<and>
   heatmap_matrix [''stock''] ''stock'' (attention business) = Inr [ [1] ] \<and>
   render_tokens [''stock''] ''stock'' (attending_words (attention business) ''stock'') =
     [(''stock'', selected_class)]"
proof -
  have h1: "length [''stock''] = 1" by simp
  have h2: "''stock'' \<in> set [''stock'']" by simp
  have h3: "''stock'' \<notin> set (attending_words (attention business) ''stock'')" by code_simp
  have r: "render_tokens [''stock''] ''stock'' (attending_words (attention business) ''stock'') =
     [(''stock'', selected_class)]"
    by code_simp
  from C7_single_word [OF h1 h2 h3] h1 h2 h3 r show ?thesis by simp
qed

text \<open>
  The claim as first stated fails when the word is listed among its own targets: the
  only cell then holds \<^verbatim>\<open>0.8\<close>.
\<close>

theorem C7_single_word_self_target_counterexample:
  "length [''a''] = 1 \<and> ''a'' \<in> set [''a''] \<and>
   heatmap_matrix [''a''] ''a'' [''a'' \<mapsto> [''a''] ] = Inr [ [0.8] ]"
  by code_simp

subsection \<open>C9: a word listed among its own targets\<close>

text \<open>
  Claim C9. When the selected word is in the sentence, its lowercase form is a key of
  the attention mapping and the attended list of that key contains the selected word
  itself, the diagonal cell of the selected row holds \<^verbatim>\<open>0.8\<close> and not
  \<^verbatim>\<open>1.0\<close>: the writes of the loop come after the diagonal fill.
\<close>

theorem C9_self_target_overwrites_diagonal:
  assumes "sel \<in> set ws" and "att (lower sel) = Some ts" and "sel \<in> set ts"
  shows "\<exists>m si. list_index ws sel = Inr si \<and> heatmap_matrix ws sel att = Inr m \<and>
           m ! si ! si = 0.8 \<and> m ! si ! si \<noteq> 1"
proof -
  from assms(1) obtain si where si: "list_index ws sel = Inr si"
    using list_index_in [of sel ws] by auto
  from heatmap_matrix_cells [of att sel ts ws si, OF assms(2) si]
  obtain m where m: "heatmap_matrix ws sel att = Inr m"
      "\<forall>i<length ws. \<forall>j<length ws.
         m ! i ! j = (if attended_cell ws si ts i j then 0.8 else if i = j then 1 else 0.1)"
    by blast
  have lt: "si < length ws"
    using list_index_Inr [OF si] by simp
  have "attended_cell ws si ts si si"
    using assms(3) si by (rule attended_cell_target)
  with m(2) lt have "m ! si ! si = 0.8" by simp
  with si m(1) show ?thesis by auto
qed

text \<open>A sentence of two words whose second word attends to itself.\<close>

theorem C9_self_target_overwrites_diagonal_witness:
  "''b'' \<in> set [''a'', ''b''] \<and> [''b'' \<mapsto> [''b''] ] (lower ''b'') = Some [''b''] \<and>
   ''b'' \<in> set [''b''] \<and> list_index [''a'', ''b''] ''b'' = Inr 1 \<and>
   heatmap_matrix [''a'', ''b''] ''b'' [''b'' \<mapsto> [''b''] ] = Inr [ [1, 0.1], [0.1, 0.8] ]"
proof -
  have h1: "''b'' \<in> set [''a'', ''b'']" by simp
  have h2: "[''b'' \<mapsto> [''b''] ] (lower ''b'') = Some [''b'']" by code_simp
  have h3: "''b'' \<in> set [''b'']" by simp
  have v: "heatmap_matrix [''a'', ''b''] ''b'' [''b'' \<mapsto> [''b''] ] = Inr [ [1, 0.1], [0.1, 0.8] ]"
    by code_simp
  have i: "list_index [''a'', ''b''] ''b'' = Inr 1" by code_simp
  from C9_self_target_overwrites_diagonal [where sel = "''b''" and ws = "[''a'', ''b'']" and att = "[''b'' \<mapsto> [''b''] ]"
      and ts = "[''b'']", OF h1 h2 h3] h1 h2 h3 v i show ?thesis by simp
qed

subsection \<open>C10: targets are matched by exact comparison\<close>

text \<open>
  Claim C10, as amended. The attention mapping is looked up under the lowercased
  selected word, but a target is compared with the sentence words exactly. Let the
  target \<open>t\<close> differ from the sentence word \<open>w'\<close> only in letter case. When
  \<open>t\<close> is not itself a sentence word, the builder passes it over: the result is the
  one obtained without \<open>t\<close>. When \<open>w'\<close> is neither itself a target of the list
  nor the selected word, its cell in the selected row stays at \<^verbatim>\<open>0.1\<close> and its
  token is rendered with class neutral.
\<close>

theorem C10_target_match_case_sensitive:
  assumes "att (lower sel) = Some ts" and "t \<in> set ts" and "w' \<in> set ws"
    and "t \<noteq> w'" and "lower t = lower w'"
  shows "(t \<notin> set ws \<longrightarrow>
            heatmap_matrix ws sel att =
              heatmap_matrix ws sel (att(lower sel \<mapsto> removeAll t ts))) \<and>
         (w' \<notin> set ts \<and> w' \<noteq> sel \<longrightarrow>
            css_class w' sel (attending_words att sel) = neutral_class \<and>
            (\<forall>si j. list_index ws sel = Inr si \<and> list_index ws w' = Inr j \<longrightarrow>
               (\<exists>m. heatmap_matrix ws sel att = Inr m \<and> m ! si ! j = 0.1)))"
proof (intro conjI impI allI)
  assume t: "t \<notin> set ws"
  have "filter (\<lambda>x. x \<in> set ws) ts = filter (\<lambda>x. x \<in> set ws) (removeAll t ts)"
    using t by (induction ts) auto
  then show "heatmap_matrix ws sel att = heatmap_matrix ws sel (att(lower sel \<mapsto> removeAll t ts))"
    using assms(1) by (rule heatmap_matrix_targets_cong)
next
  assume "w' \<notin> set ts \<and> w' \<noteq> sel"
  with assms(1) show "css_class w' sel (attending_words att sel) = neutral_class"
    by (simp add: css_class_def attending_words_def)
next
  fix si j
  assume w': "w' \<notin> set ts \<and> w' \<noteq> sel"
    and idx: "list_index ws sel = Inr si \<and> list_index ws w' = Inr j"
  then have si: "list_index ws sel = Inr si" and j: "list_index ws w' = Inr j"
    by simp_all
  from heatmap_matrix_cells [of att sel ts ws si, OF assms(1) si]
  obtain m where m: "heatmap_matrix ws sel att = Inr m"
      "\<forall>i<length ws. \<forall>j<length ws.
         m ! i ! j = (if attended_cell ws si ts i j then 0.8 else if i = j then 1 else 0.1)"
    by blast
  have lt: "si < length ws" "j < length ws"
    using list_index_Inr [OF si] list_index_Inr [OF j] by simp_all
  have "\<not> attended_cell ws si ts si j"
    using attended_cell_col [OF j] w' by blast
  moreover have "si \<noteq> j"
    using list_index_inj [of ws sel si w'] si j w' by auto
  ultimately have "m ! si ! j = 0.1"
    using m(2) lt by simp
  with m(1) show "\<exists>m. heatmap_matrix ws sel att = Inr m \<and> m ! si ! j = 0.1"
    by blast
qed

text \<open>
  The key \<^verbatim>\<open>the\<close> is found for the selected word \<^verbatim>\<open>The\<close>, the target
  \<^verbatim>\<open>Cat\<close> does not reach the word \<^verbatim>\<open>cat\<close>, and the target \<^verbatim>\<open>cat\<close>
  does.
\<close>

theorem C10_target_match_case_sensitive_witness:
  "[''the'' \<mapsto> [''Cat'']] (lower ''The'') = Some [''Cat''] \<and> ''Cat'' \<in> set [''Cat''] \<and>
   ''cat'' \<in> set [''The'', ''cat''] \<and> ''Cat'' \<noteq> ''cat'' \<and>
   lower ''Cat'' = lower ''cat'' \<and> ''Cat'' \<notin> set [''The'', ''cat''] \<and>
   ''cat'' \<notin> set [''Cat''] \<and> ''cat'' \<noteq> ''The'' \<and>
   list_index [''The'', ''cat''] ''The'' = Inr 0 \<and> list_index [''The'', ''cat''] ''cat'' = Inr 1 \<and>
   heatmap_matrix [''The'', ''cat''] ''The'' [''the'' \<mapsto> [''Cat'']] = Inr [ [1, 0.1], [0.1, 1] ] \<and>
   heatmap_matrix [''The'', ''cat''] ''The''
     ([''the'' \<mapsto> [''Cat'']](lower ''The'' \<mapsto> removeAll ''Cat'' [''Cat''])) =
     Inr [ [1, 0.1], [0.1, 1] ] \<and>
   css_class ''cat'' ''The'' (attending_words [''the'' \<mapsto> [''Cat'']] ''The'') = neutral_class \<and>
   heatmap_matrix [''The'', ''cat''] ''The'' [''the'' \<mapsto> [''cat'']] = Inr [ [1, 0.8], [0.1, 1] ]"
proof -
  have h1: "[''the'' \<mapsto> [''Cat'']] (lower ''The'') = Some [''Cat'']" by code_simp
  have h2: "''Cat'' \<in> set [''Cat'']" by simp
  have h3: "''cat'' \<in> set [''The'', ''cat'']" by simp
  have h4: "''Cat'' \<noteq> ''cat''" by simp
  have h5: "lower ''Cat'' = lower ''cat''" by code_simp
  have h6: "''Cat'' \<notin> set [''The'', ''cat'']" by simp
  have h7: "''cat'' \<notin> set [''Cat''] \<and> ''cat'' \<noteq> ''The''" by simp
  have i: "list_index [''The'', ''cat''] ''The'' = Inr 0 \<and>
           list_index [''The'', ''cat''] ''cat'' = Inr 1"
    by code_simp
  have v: "heatmap_matrix [''The'', ''cat''] ''The'' [''the'' \<mapsto> [''Cat'']] =
             Inr [ [1, 0.1], [0.1, 1] ]"
    by code_simp
  have c: "heatmap_matrix [''The'', ''cat''] ''The'' [''the'' \<mapsto> [''cat'']] =
             Inr [ [1, 0.8], [0.1, 1] ]"
    by code_simp
  from C10_target_match_case_sensitive [where att = "[''the'' \<mapsto> [''Cat'']]" and sel = "''The''"
      and ts = "[''Cat'']" and t = "''Cat''" and ws = "[''The'', ''cat'']" and w' = "''cat''",
      OF h1 h2 h3 h4 h5]
    h1 h2 h3 h4 h5 h6 h7 i v c
  show ?thesis by simp
qed

text \<open>
  The claim as first stated fails in three ways. With the targets \<^verbatim>\<open>Cat\<close> and
  \<^verbatim>\<open>cat\<close>, the target \<^verbatim>\<open>Cat\<close> differs from the word \<^verbatim>\<open>cat\<close> only in
  letter case, yet the cell of \<^verbatim>\<open>cat\<close> holds \<^verbatim>\<open>0.8\<close> and its token is
  attending. With the target \<^verbatim>\<open>the\<close> and the word \<^verbatim>\<open>The\<close> selected, the
  token of \<^verbatim>\<open>The\<close> is selected and its cell holds \<^verbatim>\<open>1.0\<close>. With both
  \<^verbatim>\<open>Cat\<close> and \<^verbatim>\<open>cat\<close> in the sentence, the target \<^verbatim>\<open>Cat\<close> is not
  passed over: its own cell is written.
\<close>

theorem C10_case_variant_counterexample:
  "[''the'' \<mapsto> [''Cat'', ''cat'']] (lower ''The'') = Some [''Cat'', ''cat''] \<and>
   ''Cat'' \<in> set [''Cat'', ''cat''] \<and> ''cat'' \<in> set [''The'', ''cat''] \<and>
   ''Cat'' \<noteq> ''cat'' \<and> lower ''Cat'' = lower ''cat'' \<and>
   list_index [''The'', ''cat''] ''The'' = Inr 0 \<and> list_index [''The'', ''cat''] ''cat'' = Inr 1 \<and>
   heatmap_matrix [''The'', ''cat''] ''The'' [''the'' \<mapsto> [''Cat'', ''cat'']] =
     Inr [ [1, 0.8], [0.1, 1] ] \<and>
   css_class ''cat'' ''The'' (attending_words [''the'' \<mapsto> [''Cat'', ''cat'']] ''The'') =
     attending_class \<and>
   attending_class \<noteq> neutral_class \<and>
   [''the'' \<mapsto> [''the'']] (lower ''The'') = Some [''the''] \<and>
   ''the'' \<noteq> ''The'' \<and> lower ''the'' = lower ''The'' \<and>
   heatmap_matrix [''The'', ''cat''] ''The'' [''the'' \<mapsto> [''the'']] =
     Inr [ [1, 0.1], [0.1, 1] ] \<and>
   css_class ''The'' ''The'' (attending_words [''the'' \<mapsto> [''the'']] ''The'') =
     selected_class \<and>
   selected_class \<noteq> neutral_class \<and>
   [''x'' \<mapsto> [''Cat'']] (lower ''x'') = Some [''Cat''] \<and>
   ''cat'' \<in> set [''Cat'', ''cat'', ''x''] \<and>
   heatmap_matrix [''Cat'', ''cat'', ''x''] ''x'' [''x'' \<mapsto> [''Cat'']] =
     Inr [ [1, 0.1, 0.1], [0.1, 1, 0.1], [0.8, 0.1, 1] ] \<and>
   heatmap_matrix [''Cat'', ''cat'', ''x''] ''x''
     ([''x'' \<mapsto> [''Cat'']](lower ''x'' \<mapsto> removeAll ''Cat'' [''Cat''])) =
     Inr [ [1, 0.1, 0.1], [0.1, 1, 0.1], [0.1, 0.1, 1] ]"
  by code_simp

end
